theory Spec2Isabelle
  imports Complex_Main
begin

section \<open>Python values used by the pipeline\<close>

text \<open>
  The pipeline of \<^verbatim>\<open>app/workflows/linkedin_workflow.py\<close> and the ranking of
  \<^verbatim>\<open>app/agents/trend_analysis_agent.py\<close> are embedded as HOL functions.
  Python dictionaries with a fixed set of keys become records; an entry that the code
  reads with \<^verbatim>\<open>d.get(key, default)\<close> is an \<open>option\<close> field, \<open>None\<close> meaning
  that the key is absent. Python \<^verbatim>\<open>float\<close> scores are idealised as real numbers:
  the arithmetic below is exact, rounding is not modelled.
\<close>

definition dict_get :: "'a option \<Rightarrow> 'a \<Rightarrow> 'a" where
  \<comment> \<open>\<^verbatim>\<open>d.get(key, default)\<close>, the entry under \<^verbatim>\<open>key\<close> given as an option\<close>
  "dict_get entry dflt = (case entry of None \<Rightarrow> dflt | Some v \<Rightarrow> v)"

definition py_slice_to :: "int \<Rightarrow> 'a list \<Rightarrow> 'a list" where
  \<comment> \<open>\<^verbatim>\<open>xs[:n]\<close>: a negative bound counts from the end of the list\<close>
  "py_slice_to n xs =
     (if 0 \<le> n then take (nat n) xs else take (length xs - nat (- n)) xs)"

definition sorted_reverse :: "('a \<Rightarrow> real) \<Rightarrow> 'a list \<Rightarrow> 'a list" where
  \<comment> \<open>\<^verbatim>\<open>sorted(xs, key=k, reverse=True)\<close>: descending and stable\<close>
  "sorted_reverse k xs = sort_key (\<lambda>x. - k x) xs"

section \<open>Dates and times\<close>

text \<open>
  A \<^verbatim>\<open>datetime\<close> is held as the ordinal of its date (\<^verbatim>\<open>date.toordinal()\<close>, day 1 being
  0001-01-01) and its time of day. \<^verbatim>\<open>datetime + timedelta\<close> normalises days, seconds and
  microseconds and raises \<^verbatim>\<open>OverflowError\<close> when the date leaves the years 1 to 9999.
\<close>

datatype py_error = OverflowError | GraphRecursionError | UnboundLocalError

record datetime =
  ordinal :: int
  hour :: nat
  minute :: nat
  second :: nat
  microsecond :: nat

record timedelta =
  days :: int
  seconds :: int
  microseconds :: int

definition MAXORDINAL :: int where
  "MAXORDINAL = 3652059"

definition timedelta_minutes :: "int \<Rightarrow> py_error + timedelta" where
  \<comment> \<open>\<^verbatim>\<open>timedelta(minutes=m)\<close>\<close>
  "timedelta_minutes m =
     (let s = m * 60; d = s div 86400
      in if \<bar>d\<bar> > 999999999 then Inl OverflowError
         else Inr \<lparr>days = d, seconds = s mod 86400, microseconds = 0\<rparr>)"

definition datetime_add :: "datetime \<Rightarrow> timedelta \<Rightarrow> py_error + datetime" where
  \<comment> \<open>\<^verbatim>\<open>datetime.__add__\<close>\<close>
  "datetime_add dt td =
     (let us = int (microsecond dt) + microseconds td;
          s = int (hour dt) * 3600 + int (minute dt) * 60 + int (second dt)
              + seconds td + us div 1000000;
          d = ordinal dt + days td + s div 86400;
          r = s mod 86400
      in if 0 < d \<and> d \<le> MAXORDINAL
         then Inr \<lparr>ordinal = d, hour = nat (r div 3600), minute = nat (r mod 3600 div 60),
                   second = nat (r mod 60), microsecond = nat (us mod 1000000)\<rparr>
         else Inl OverflowError)"

definition datetime_lt :: "datetime \<Rightarrow> datetime \<Rightarrow> bool" where
  \<comment> \<open>\<^verbatim>\<open>a < b\<close> on datetimes: date first, then time of day\<close>
  "datetime_lt a b =
     (ordinal a < ordinal b \<or> (ordinal a = ordinal b \<and>
       (hour a < hour b \<or> (hour a = hour b \<and>
         (minute a < minute b \<or> (minute a = minute b \<and>
           (second a < second b \<or> (second a = second b \<and>
             microsecond a < microsecond b))))))))"

definition optimal_hours :: "nat list" where
  "optimal_hours = [8, 12, 17]"

definition schedule_time :: "datetime \<Rightarrow> nat \<Rightarrow> py_error + datetime" where
  \<comment> \<open>the body of the loop of \<^verbatim>\<open>_calculate_optimal_post_times\<close> at index \<open>i\<close>\<close>
  "schedule_time base_time i =
     (let h = optimal_hours ! (i mod length optimal_hours);
          at_hour = base_time\<lparr>hour := h, minute := 0, second := 0, microsecond := 0\<rparr>;
          slot = (if hour base_time \<ge> h
                  then datetime_add at_hour \<lparr>days = 1, seconds = 0, microseconds = 0\<rparr>
                  else Inr at_hour)
      in case slot of
           Inl e \<Rightarrow> Inl e
         | Inr t \<Rightarrow>
             (case timedelta_minutes (int i * 30) of
                Inl e \<Rightarrow> Inl e
              | Inr td \<Rightarrow> datetime_add t td))"

fun post_times_loop ::
  "datetime \<Rightarrow> nat list \<Rightarrow> datetime list \<Rightarrow> py_error + datetime list" where
  "post_times_loop base_time [] scheduled_times = Inr scheduled_times"
| "post_times_loop base_time (i # rest) scheduled_times =
     (case schedule_time base_time i of
        Inl e \<Rightarrow> Inl e
      | Inr t \<Rightarrow> post_times_loop base_time rest (scheduled_times @ [t]))"

definition calculate_optimal_post_times :: "datetime \<Rightarrow> int \<Rightarrow> py_error + datetime list" where
  \<comment> \<open>\<^verbatim>\<open>base_time\<close> is the value of \<^verbatim>\<open>datetime.utcnow()\<close>\<close>
  "calculate_optimal_post_times base_time num_posts =
     post_times_loop base_time [0..<nat num_posts] []"

text \<open>
  Two ways of reading a \<^verbatim>\<open>datetime\<close> in the statements below: the minutes since the
  start of day 0, for a time with whole minutes, and the constructor for such a time.
\<close>

definition datetime_minutes :: "datetime \<Rightarrow> int" where
  "datetime_minutes t = ordinal t * 1440 + int (hour t) * 60 + int (minute t)"

definition datetime_at :: "int \<Rightarrow> nat \<Rightarrow> nat \<Rightarrow> datetime" where
  "datetime_at day h m = \<lparr>ordinal = day, hour = h, minute = m, second = 0, microsecond = 0\<rparr>"

section \<open>Workflow data\<close>

record trend =
  trend_id :: int
  trend_topic :: string
  trend_hashtags :: "string list"
  trend_relevance_score :: "real option"
  trend_source :: string

record metrics =
  readability_score :: "real option"
  engagement_score :: "real option"

text \<open>
  The post dictionary that \<^verbatim>\<open>ContentCreationAgent._store_content\<close> returns has the keys
  \<^verbatim>\<open>id, content, hashtags, readability_score, character_count, status, created_at\<close>.
  The review stage reads the key \<^verbatim>\<open>quality_metrics\<close> of that dictionary, so the
  record has a field for it.
\<close>

record post =
  post_id :: int
  post_content :: string
  post_hashtags :: "string list"
  post_readability_score :: "real option"
  post_quality_metrics :: "metrics option"

text \<open>The \<^verbatim>\<open>data\<close> of a successful \<^verbatim>\<open>ContentCreationAgent.execute\<close>.\<close>

record content_data =
  post :: post
  quality_metrics :: metrics

text \<open>A candidate of \<^verbatim>\<open>state.generated_content\<close>: the data plus what the stages add.\<close>

record content = content_data +
  trend_info :: trend
  tone :: string
  composite_score :: "real option"
  approved :: "bool option"

record published_post =
  published_post_id :: int
  scheduled_at :: datetime
  content_preview :: string

record LinkedInWorkflowState =
  sources :: "string list"
  max_trends :: int
  max_posts_per_day :: int
  content_tones :: "string list"
  trends :: "trend list"
  generated_content :: "content list"
  published_posts :: "published_post list"
  workflow_id :: string
  started_at :: string
  current_step :: string
  errors :: "string list"
  trends_found :: int
  content_generated :: int
  posts_published :: int

section \<open>Review and the publish decision\<close>

definition compositeScore :: "real \<Rightarrow> real \<Rightarrow> real \<Rightarrow> real" where
  \<comment> \<open>the weighted sum of \<^verbatim>\<open>_review_content_node\<close>\<close>
  "compositeScore readability engagement relevance =
     readability * 0.3 + engagement * 100 * 0.4 + relevance * 100 * 0.3"

definition review_one :: "content \<Rightarrow> content" where
  \<comment> \<open>the body of the loop of \<^verbatim>\<open>_review_content_node\<close>\<close>
  "review_one c =
     (let qm = dict_get (post_quality_metrics (post c))
                 \<lparr>readability_score = None, engagement_score = None\<rparr>;
          readability = dict_get (readability_score qm) 0;
          engagement = dict_get (engagement_score qm) 0;
          relevance = dict_get (trend_relevance_score (trend_info c)) 0;
          score = compositeScore readability engagement relevance
      in c\<lparr>composite_score := Some score, approved := Some (score \<ge> 40)\<rparr>)"

definition review_content_node :: "LinkedInWorkflowState \<Rightarrow> LinkedInWorkflowState" where
  "review_content_node state =
     state\<lparr>current_step := ''reviewing_content'',
           generated_content :=
             sorted_reverse (\<lambda>x. dict_get (composite_score x) 0)
               (map review_one (generated_content state))\<rparr>"

datatype decision = publish | regenerate | skip

definition should_publish_content :: "LinkedInWorkflowState \<Rightarrow> decision" where
  "should_publish_content state =
     (if generated_content state = [] then skip
      else
        let approved_count =
              length (filter (\<lambda>c. dict_get (approved c) False) (generated_content state))
        in if approved_count \<ge> 1 then publish
           else if length (generated_content state) < 5 then regenerate
           else skip)"

datatype node =
  analyze_trends | filter_trends | generate_content | review_content
  | schedule_posts | monitor_engagement | END

text \<open>The edges of \<^verbatim>\<open>_build_workflow\<close>; the state decides after \<^verbatim>\<open>review_content\<close>.\<close>

fun next_node :: "node \<Rightarrow> LinkedInWorkflowState \<Rightarrow> node" where
  "next_node analyze_trends state = filter_trends"
| "next_node filter_trends state = generate_content"
| "next_node generate_content state = review_content"
| "next_node review_content state =
     (case should_publish_content state of
        publish \<Rightarrow> schedule_posts
      | regenerate \<Rightarrow> generate_content
      | skip \<Rightarrow> END)"
| "next_node schedule_posts state = monitor_engagement"
| "next_node monitor_engagement state = END"
| "next_node END state = END"

section \<open>External collaborators\<close>

text \<open>
  The agents, the database and the clock are parameters of the run. An agent call
  (\<^verbatim>\<open>BaseAgent.execute\<close>) either raises, returns a dictionary with \<^verbatim>\<open>success\<close> false and
  an error text, or returns its data. The content agent is called many times in a run
  and may answer differently each time, so it also receives the number of calls made
  before; it is given what the code passes: the trend's \<^verbatim>\<open>id\<close> and the tone.

  One pass of the scheduling loop opens a database session, reads the post's id, looks
  the post up and, when it exists, commits the new status. \<open>SessionRaises\<close> is a raise of
  \<^verbatim>\<open>next(get_db())\<close>, before \<^verbatim>\<open>post_id\<close> is assigned; \<open>DbRaises\<close> is a raise of the query
  or of the commit; \<open>PostMissing\<close> and \<open>PostFound\<close> are the two results of the query when
  nothing raises before the post is recorded. The outcome is given for the index of the
  pass and the id of the post.
\<close>

datatype 'a outcome = Raises string | Failure string | Success 'a

datatype db_result = SessionRaises | DbRaises | PostMissing | PostFound

record env =
  trend_agent_execute :: "string list \<Rightarrow> int \<Rightarrow> trend list outcome"
  content_agent_execute :: "nat \<Rightarrow> int \<Rightarrow> string \<Rightarrow> content_data outcome"
  db_query_post :: "nat \<Rightarrow> int \<Rightarrow> db_result"
  utcnow :: datetime
  utcnow_strftime :: string
  utcnow_isoformat :: string
  exception_str :: "py_error \<Rightarrow> string"

section \<open>The stages\<close>

definition analyze_trends_node :: "env \<Rightarrow> LinkedInWorkflowState \<Rightarrow> LinkedInWorkflowState" where
  "analyze_trends_node env state0 =
     (let state = state0\<lparr>current_step := ''analyzing_trends''\<rparr>
      in case trend_agent_execute env (sources state) (max_trends state) of
           Success found \<Rightarrow> state\<lparr>trends := found\<rparr>
         | Failure err \<Rightarrow>
             state\<lparr>errors := errors state @ [''Trend analysis failed: '' @ err]\<rparr>
         | Raises e \<Rightarrow>
             state\<lparr>errors := errors state @ [''Trend analysis error: '' @ e]\<rparr>)"

definition filter_trends_node :: "LinkedInWorkflowState \<Rightarrow> LinkedInWorkflowState" where
  "filter_trends_node state0 =
     (let state = state0\<lparr>current_step := ''filtering_trends''\<rparr>
      in if trends state = [] then state
         else state\<lparr>trends :=
                py_slice_to (max_posts_per_day state)
                  (sorted_reverse (\<lambda>x. dict_get (trend_relevance_score x) 0) (trends state))\<rparr>)"

definition new_content :: "content_data \<Rightarrow> trend \<Rightarrow> string \<Rightarrow> content" where
  \<comment> \<open>\<^verbatim>\<open>content_data["trend_info"] = trend; content_data["tone"] = tone\<close>\<close>
  "new_content content_data trend tone' =
     \<lparr>post = post content_data, quality_metrics = quality_metrics content_data,
      trend_info = trend, tone = tone', composite_score = None, approved = None\<rparr>"

fun generate_tones ::
  "env \<Rightarrow> trend \<Rightarrow> string list \<Rightarrow> nat \<times> LinkedInWorkflowState
     \<Rightarrow> nat \<times> LinkedInWorkflowState" where
  "generate_tones env trend [] (calls, state) = (calls, state)"
| "generate_tones env trend (tone' # rest) (calls, state) =
     generate_tones env trend rest
       (Suc calls,
        case content_agent_execute env calls (trend_id trend) tone' of
          Success content_data \<Rightarrow>
            state\<lparr>generated_content :=
                    generated_content state @ [new_content content_data trend tone']\<rparr>
        | Failure err \<Rightarrow> state
        | Raises e \<Rightarrow> state)"

fun generate_trends ::
  "env \<Rightarrow> trend list \<Rightarrow> string list \<Rightarrow> nat \<times> LinkedInWorkflowState
     \<Rightarrow> nat \<times> LinkedInWorkflowState" where
  "generate_trends env [] tones cs = cs"
| "generate_trends env (trend # rest) tones cs =
     generate_trends env rest tones (generate_tones env trend tones cs)"

definition generate_content_node ::
  "env \<Rightarrow> nat \<times> LinkedInWorkflowState \<Rightarrow> nat \<times> LinkedInWorkflowState" where
  "generate_content_node env cs =
     (let state = (snd cs)\<lparr>current_step := ''generating_content'', generated_content := []\<rparr>
      in generate_trends env (trends state) (content_tones state) (fst cs, state))"

text \<open>
  The handler of a failed pass logs \<^verbatim>\<open>post_id\<close>. When the session raises in a pass and no
  earlier pass has assigned \<^verbatim>\<open>post_id\<close>, the handler itself raises
  \<^verbatim>\<open>UnboundLocalError\<close>, which leaves the loop and is caught by the stage.
\<close>

fun schedule_loop ::
  "env \<Rightarrow> (nat \<times> content \<times> datetime) list \<Rightarrow> bool \<Rightarrow> LinkedInWorkflowState
     \<Rightarrow> py_error + LinkedInWorkflowState" where
  "schedule_loop env [] post_id_bound state = Inr state"
| "schedule_loop env ((i, c, t) # rest) post_id_bound state =
     (case db_query_post env i (post_id (post c)) of
        SessionRaises \<Rightarrow>
          (if post_id_bound then schedule_loop env rest post_id_bound state
           else Inl UnboundLocalError)
      | DbRaises \<Rightarrow> schedule_loop env rest True state
      | PostMissing \<Rightarrow> schedule_loop env rest True state
      | PostFound \<Rightarrow>
          schedule_loop env rest True
            (state\<lparr>published_posts := published_posts state @
                    [\<lparr>published_post_id = post_id (post c), scheduled_at = t,
                      content_preview = take 100 (post_content (post c)) @ ''...''\<rparr>]\<rparr>))"

definition schedule_posts_node :: "env \<Rightarrow> LinkedInWorkflowState \<Rightarrow> LinkedInWorkflowState" where
  "schedule_posts_node env state0 =
     (let state = state0\<lparr>current_step := ''scheduling_posts''\<rparr>;
          approved_content = filter (\<lambda>c. dict_get (approved c) False) (generated_content state);
          posts_to_schedule = py_slice_to (max_posts_per_day state) approved_content
      in case calculate_optimal_post_times (utcnow env) (int (length posts_to_schedule)) of
           Inl e \<Rightarrow>
             state\<lparr>errors := errors state @ [''Post scheduling error: '' @ exception_str env e]\<rparr>
         | Inr scheduled_times \<Rightarrow>
             (case schedule_loop env
                     (zip [0..<length posts_to_schedule] (zip posts_to_schedule scheduled_times))
                     False state of
                Inl e \<Rightarrow>
                  state\<lparr>errors :=
                    errors state @ [''Post scheduling error: '' @ exception_str env e]\<rparr>
              | Inr state' \<Rightarrow>
                  state'\<lparr>posts_published := int (length (published_posts state'))\<rparr>))"

definition monitor_engagement_node :: "LinkedInWorkflowState \<Rightarrow> LinkedInWorkflowState" where
  "monitor_engagement_node state = state\<lparr>current_step := ''monitoring_engagement''\<rparr>"

section \<open>Running the graph\<close>

text \<open>
  The compiled graph runs one stage per step, follows the edges, and stops at \<open>END\<close>.
  The library raises \<^verbatim>\<open>GraphRecursionError\<close> when the number of steps given by
  \<^verbatim>\<open>recursion_limit\<close> is used up before \<open>END\<close> is reached.
\<close>

fun exec_node :: "env \<Rightarrow> node \<Rightarrow> nat \<times> LinkedInWorkflowState \<Rightarrow> nat \<times> LinkedInWorkflowState" where
  "exec_node env analyze_trends cs = (fst cs, analyze_trends_node env (snd cs))"
| "exec_node env filter_trends cs = (fst cs, filter_trends_node (snd cs))"
| "exec_node env generate_content cs = generate_content_node env cs"
| "exec_node env review_content cs = (fst cs, review_content_node (snd cs))"
| "exec_node env schedule_posts cs = (fst cs, schedule_posts_node env (snd cs))"
| "exec_node env monitor_engagement cs = (fst cs, monitor_engagement_node (snd cs))"
| "exec_node env END cs = cs"

fun run_graph ::
  "env \<Rightarrow> nat \<Rightarrow> node \<Rightarrow> nat \<times> LinkedInWorkflowState
     \<Rightarrow> py_error + nat \<times> LinkedInWorkflowState" where
  "run_graph env limit END cs = Inr cs"
| "run_graph env 0 n cs = Inl GraphRecursionError"
| "run_graph env (Suc limit) n cs =
     (let cs' = exec_node env n cs in run_graph env limit (next_node n (snd cs')) cs')"

definition recursion_limit :: nat where
  "recursion_limit = 50"

datatype pyval =
  VBool bool | VInt int | VStr string | VStrs "string list"
  | VPosts "published_post list" | VDict "(string \<times> pyval) list"

definition initial_state :: "env \<Rightarrow> LinkedInWorkflowState" where
  "initial_state env =
     \<lparr>sources = [''techcrunch''], max_trends = 5, max_posts_per_day = 3,
      content_tones = [''professional'', ''casual''],
      trends = [], generated_content = [], published_posts = [],
      workflow_id = ''daily_'' @ utcnow_strftime env,
      started_at = utcnow_isoformat env,
      current_step = ''starting'', errors = [],
      trends_found = 0, content_generated = 0, posts_published = 0\<rparr>"

text \<open>
  \<^verbatim>\<open>ainvoke\<close> returns the final state as a dictionary of its fields, not as an instance
  of the state class. \<^verbatim>\<open>getattr(final_state, name, default)\<close> finds the fields of an
  instance; a dictionary has no attribute of any of these names, so the default is the
  result.
\<close>

datatype graph_output = StateObject LinkedInWorkflowState | StateDict LinkedInWorkflowState

definition getattr :: "graph_output \<Rightarrow> (LinkedInWorkflowState \<Rightarrow> 'a) \<Rightarrow> 'a \<Rightarrow> 'a" where
  "getattr final_state field dflt =
     (case final_state of StateObject state \<Rightarrow> field state | StateDict entries \<Rightarrow> dflt)"

definition ainvoke :: "env \<Rightarrow> nat \<Rightarrow> LinkedInWorkflowState \<Rightarrow> py_error + graph_output" where
  "ainvoke env limit initial =
     (case run_graph env limit analyze_trends (0, initial) of
        Inl e \<Rightarrow> Inl e
      | Inr (calls, final_state) \<Rightarrow> Inr (StateDict final_state))"

definition run_daily_automation :: "env \<Rightarrow> (string \<times> pyval) list" where
  "run_daily_automation env =
     (case ainvoke env recursion_limit (initial_state env) of
        Inr final_state \<Rightarrow>
          [(''success'', VBool True),
           (''workflow_id'', VStr (getattr final_state workflow_id ''unknown'')),
           (''summary'', VDict
              [(''trends_found'', VInt (int (length (getattr final_state trends [])))),
               (''content_generated'',
                  VInt (int (length (getattr final_state generated_content [])))),
               (''posts_scheduled'',
                  VInt (int (length (getattr final_state published_posts [])))),
               (''errors'', VStrs (getattr final_state errors []))]),
           (''scheduled_posts'', VPosts (getattr final_state published_posts []))]
      | Inl e \<Rightarrow>
          [(''success'', VBool False),
           (''error'', VStr (''Workflow execution failed: '' @ exception_str env e)),
           (''workflow_id'', VStr (workflow_id (initial_state env)))])"

section \<open>Trend ranking\<close>

text \<open>
  \<^verbatim>\<open>TrendAnalysisAgent._rank_trends\<close>. The two dictionaries keep their keys in insertion
  order, as Python dictionaries do, so they are association lists. The case folding is
  \<^verbatim>\<open>str.lower\<close>, a parameter here. One relevance request per distinct topic is sent to
  the language model: the request raises, or its answer is not a number
  (\<^verbatim>\<open>float\<close> raises \<^verbatim>\<open>ValueError\<close>), or it is a number, possibly infinite or NaN.
\<close>

record topic_info =
  topic :: string
  hashtags :: "string list"
  source_article_title :: string
  source_article_url :: string
  source :: string

record ranked_trend = topic_info +
  relevance_score :: real
  mention_count :: nat

datatype pyfloat = Finite real | PosInf | NegInf | NaN

datatype relevance_reply = RequestRaises | NotANumber | Number pyfloat

fun dict_set :: "'k \<Rightarrow> 'v \<Rightarrow> ('k \<times> 'v) list \<Rightarrow> ('k \<times> 'v) list" where
  \<comment> \<open>\<^verbatim>\<open>d[k] = v\<close>: a known key keeps its place, a new key goes last\<close>
  "dict_set k v [] = [(k, v)]"
| "dict_set k v ((k', v') # rest) =
     (if k' = k then (k, v) # rest else (k', v') # dict_set k v rest)"

fun count_topics ::
  "(string \<Rightarrow> string) \<Rightarrow> topic_info list \<Rightarrow> nat
     \<Rightarrow> (string \<times> nat) list \<times> (string \<times> topic_info) list
     \<Rightarrow> (string \<times> nat) list \<times> (string \<times> topic_info) list" where
  "count_topics lower [] counter (topic_counts, topic_data) = (topic_counts, topic_data)"
| "count_topics lower (info # rest) counter (topic_counts, topic_data) =
     (if counter \<ge> 10 then (topic_counts, topic_data)
      else
        let t = lower (topic info);
            (topic_counts1, topic_data1) =
              (if map_of topic_counts t = None
               then (dict_set t 0 topic_counts, dict_set t info topic_data)
               else (topic_counts, topic_data));
            topic_counts2 =
              dict_set t (dict_get (map_of topic_counts1 t) 0 + 1) topic_counts1
        in count_topics lower rest (counter + 1) (topic_counts2, topic_data1))"

definition clamp01 :: "pyfloat \<Rightarrow> real" where
  \<comment> \<open>\<^verbatim>\<open>max(0.0, min(1.0, x))\<close>; \<^verbatim>\<open>min(1.0, nan)\<close> is \<^verbatim>\<open>1.0\<close>\<close>
  "clamp01 x =
     (case x of
        Finite v \<Rightarrow> max 0 (min 1 v)
      | PosInf \<Rightarrow> 1
      | NegInf \<Rightarrow> 0
      | NaN \<Rightarrow> 1)"

definition final_score :: "real \<Rightarrow> nat \<Rightarrow> real" where
  "final_score relevance count =
     (relevance * 0.7) + (min (real count / 5) 1.0 * 0.3)"

fun score_topics ::
  "(string \<Rightarrow> relevance_reply) \<Rightarrow> (string \<times> topic_info) list \<Rightarrow> (string \<times> nat) list
     \<Rightarrow> ranked_trend list" where
  "score_topics llm topic_data [] = []"
| "score_topics llm topic_data ((t, count) # rest) =
     (case llm t of
        RequestRaises \<Rightarrow> score_topics llm topic_data rest
      | reply \<Rightarrow>
          (case map_of topic_data t of
             None \<Rightarrow> score_topics llm topic_data rest
           | Some info \<Rightarrow>
               (let relevance =
                      (case reply of Number x \<Rightarrow> clamp01 x | _ \<Rightarrow> 0.5)
                in \<lparr>topic = topic info, hashtags = hashtags info,
                    source_article_title = source_article_title info,
                    source_article_url = source_article_url info,
                    source = source info,
                    relevance_score = final_score relevance count,
                    mention_count = count\<rparr>
                   # score_topics llm topic_data rest)))"

definition rank_trends ::
  "(string \<Rightarrow> string) \<Rightarrow> (string \<Rightarrow> relevance_reply) \<Rightarrow> topic_info list \<Rightarrow> int
     \<Rightarrow> ranked_trend list" where
  "rank_trends lower llm topics limit =
     (let (topic_counts, topic_data) = count_topics lower topics 0 ([], []);
          ranked_trends = score_topics llm topic_data topic_counts
      in py_slice_to limit (sorted_reverse relevance_score ranked_trends))"

text \<open>
  The invariant of \<^verbatim>\<open>topic_data\<close> in the counting loop: every entry is stored under the
  case-folded topic of its value.
\<close>

definition keyed :: "(string \<Rightarrow> string) \<Rightarrow> (string \<times> topic_info) list \<Rightarrow> bool" where
  "keyed lower topic_data =
     (\<forall>k info. map_of topic_data k = Some info \<longrightarrow> lower (topic info) = k)"

section \<open>What the content agent returns\<close>

text \<open>
  \<^verbatim>\<open>ContentCreationAgent._store_content\<close> builds the post dictionary and
  \<^verbatim>\<open>_execute_logic\<close> returns it under \<^verbatim>\<open>post\<close>, next to the quality metrics under
  \<^verbatim>\<open>quality_metrics\<close>. The post dictionary has no key \<^verbatim>\<open>quality_metrics\<close>.
\<close>

definition store_content :: "int \<Rightarrow> string \<Rightarrow> string list \<Rightarrow> metrics \<Rightarrow> post" where
  "store_content new_id text tags quality =
     \<lparr>post_id = new_id, post_content = text, post_hashtags = tags,
      post_readability_score = readability_score quality,
      post_quality_metrics = None\<rparr>"

definition content_execute_logic :: "int \<Rightarrow> string \<Rightarrow> string list \<Rightarrow> metrics \<Rightarrow> content_data" where
  "content_execute_logic new_id text tags quality =
     \<lparr>post = store_content new_id text tags quality, quality_metrics = quality\<rparr>"

section \<open>Concrete inputs\<close>

text \<open>
  A run with one trend and the two default tones, whose content agent always succeeds
  with content of low readability and engagement; a candidate with good scores; and a
  state in which no candidate was generated.
\<close>

definition stub_trend :: trend where
  "stub_trend =
     \<lparr>trend_id = 1, trend_topic = ''AI agents'', trend_hashtags = [''#AI''],
      trend_relevance_score = Some (1/2), trend_source = ''techcrunch''\<rparr>"

definition stub_data :: content_data where
  "stub_data =
     content_execute_logic 7 ''text'' [''#AI'']
       \<lparr>readability_score = Some 30, engagement_score = Some (1/10)\<rparr>"

definition stub_env :: env where
  "stub_env =
     \<lparr>trend_agent_execute = (\<lambda>srcs limit. Success [stub_trend]),
      content_agent_execute = (\<lambda>calls tid tone'. Success stub_data),
      db_query_post = (\<lambda>i pid. PostFound),
      utcnow = \<lparr>ordinal = 739000, hour = 9, minute = 0, second = 0, microsecond = 0\<rparr>,
      utcnow_strftime = ''20240501_090000'',
      utcnow_isoformat = ''2024-05-01T09:00:00'',
      exception_str = (\<lambda>e. case e of
          GraphRecursionError \<Rightarrow> ''Recursion limit of 50 reached''
        | OverflowError \<Rightarrow> ''date value out of range''
        | UnboundLocalError \<Rightarrow> ''local variable post_id referenced before assignment'')\<rparr>"

definition good_candidate :: content where
  "good_candidate =
     new_content
       (content_execute_logic 7 ''text'' [''#AI'']
          \<lparr>readability_score = Some 60, engagement_score = Some (4/5)\<rparr>)
       (stub_trend\<lparr>trend_relevance_score := Some (9/10)\<rparr>) ''professional''"

definition empty_state :: LinkedInWorkflowState where
  "empty_state =
     \<lparr>sources = [''techcrunch''], max_trends = 5, max_posts_per_day = 3,
      content_tones = [''professional'', ''casual''],
      trends = [], generated_content = [], published_posts = [],
      workflow_id = ''daily_20240501_090000'', started_at = ''2024-05-01T09:00:00'',
      current_step = ''reviewing_content'', errors = [],
      trends_found = 0, content_generated = 0, posts_published = 0\<rparr>"

text \<open>A state whose two candidates were reviewed and not approved.\<close>

definition rejected_state :: LinkedInWorkflowState where
  "rejected_state =
     empty_state\<lparr>generated_content :=
       [review_one (new_content stub_data stub_trend ''professional''),
        review_one (new_content stub_data stub_trend ''casual'')]\<rparr>"

text \<open>The same run when the trend agent reports a failure.\<close>

definition no_trend_env :: env where
  "no_trend_env = stub_env\<lparr>trend_agent_execute := (\<lambda>srcs limit. Failure ''no articles'')\<rparr>"

text \<open>Two values of the clock, at 09:00 and at 07:00 of the same day.\<close>

definition now9 :: datetime where
  "now9 = \<lparr>ordinal = 739000, hour = 9, minute = 0, second = 0, microsecond = 0\<rparr>"

definition now7 :: datetime where
  "now7 = \<lparr>ordinal = 739000, hour = 7, minute = 0, second = 0, microsecond = 0\<rparr>"

text \<open>
  A case folding for ASCII letters, three mentions of two topics, and a language model
  that rates one topic and answers with text for any other.
\<close>

definition lower_ascii :: "string \<Rightarrow> string" where
  "lower_ascii s =
     map (\<lambda>c. case map_of (zip ''ABCDEFGHIJKLMNOPQRSTUVWXYZ'' ''abcdefghijklmnopqrstuvwxyz'') c of
                 Some l \<Rightarrow> l
               | None \<Rightarrow> c) s"

definition mention :: "string \<Rightarrow> topic_info" where
  "mention t =
     \<lparr>topic = t, hashtags = [], source_article_title = ''title'',
      source_article_url = ''url'', source = ''techcrunch''\<rparr>"

definition stub_llm :: "string \<Rightarrow> relevance_reply" where
  "stub_llm t = (if t = ''ai'' then Number (Finite (9/10)) else NotANumber)"

definition three_mentions :: "topic_info list" where
  "three_mentions = [mention ''AI'', mention ''Rust'', mention ''ai'']"

section \<open>Properties\<close>

lemma compositeScore_mono:
  "r \<le> r' \<Longrightarrow> e \<le> e' \<Longrightarrow> t \<le> t' \<Longrightarrow> compositeScore r e t \<le> compositeScore r' e' t'"
  by (simp add: compositeScore_def add_mono)

text \<open>
  Claim C9. The composite score is monotonically non-decreasing in each of its three
  inputs (readability, engagement, trend relevance), the other two held fixed.
\<close>

theorem compositeScore_monotone_each:
  "(r \<le> r' \<longrightarrow> compositeScore r e t \<le> compositeScore r' e t) \<and>
   (e \<le> e' \<longrightarrow> compositeScore r e t \<le> compositeScore r e' t) \<and>
   (t \<le> t' \<longrightarrow> compositeScore r e t \<le> compositeScore r e t')"
  by (simp add: compositeScore_mono)

theorem compositeScore_monotone_each_witness:
  "compositeScore 50 (1/2) (1/2) \<le> compositeScore 60 (1/2) (1/2) \<and>
   compositeScore 50 (1/2) (1/2) \<le> compositeScore 50 (3/4) (1/2) \<and>
   compositeScore 50 (1/2) (1/2) \<le> compositeScore 50 (1/2) 1"
  using compositeScore_monotone_each [of 50 60 "1/2" "1/2" "3/4" 1] by simp

subsection \<open>The review of a candidate\<close>

lemma review_one_agent_candidate:
  "review_one (new_content (content_execute_logic new_id text tags quality) tr tn) =
     (new_content (content_execute_logic new_id text tags quality) tr tn)
       \<lparr>composite_score := Some (compositeScore 0 0 (dict_get (trend_relevance_score tr) 0)),
        approved := Some (compositeScore 0 0 (dict_get (trend_relevance_score tr) 0) \<ge> 40)\<rparr>"
  by (simp add: review_one_def new_content_def content_execute_logic_def store_content_def
      dict_get_def Let_def)

text \<open>
  Claim C5, evaluated on a candidate of the content agent with readability 60,
  engagement 0.8 and trend relevance 0.9. The weighted sum of its own scores is 77, which
  passes the threshold of 40; the review stage looks for the metrics in the post
  dictionary, finds none, scores the candidate 27 and does not approve it.
\<close>

theorem review_ignores_candidate_metrics:
  "compositeScore 60 (4/5) (9/10) = 77 \<and>
   composite_score (review_one good_candidate) = Some 27 \<and>
   approved (review_one good_candidate) = Some False"
  unfolding good_candidate_def review_one_agent_candidate
  by (simp add: compositeScore_def dict_get_def stub_trend_def)

subsection \<open>The blended relevance\<close>

lemma final_score_range:
  "0 \<le> r \<Longrightarrow> r \<le> 1 \<Longrightarrow> 0 \<le> final_score r m \<and> final_score r m \<le> 1"
  unfolding final_score_def by (auto simp: min_def)

text \<open>
  Claim C7. For a relevance \<open>r\<close> in \<open>[0, 1]\<close> and a mention count \<open>m\<close>, the final score is
  \<open>0.7 * r + 0.3 * min (m / 5) 1\<close> and lies in \<open>[0, 1]\<close>.
\<close>

theorem final_score_blend:
  "0 \<le> r \<and> r \<le> 1 \<longrightarrow>
     final_score r m = 0.7 * r + 0.3 * min (real m / 5) 1.0 \<and>
     0 \<le> final_score r m \<and> final_score r m \<le> 1"
  using final_score_range [of r m] by (simp add: final_score_def)

theorem final_score_blend_witness:
  "final_score (9/10) 5 = 0.7 * (9/10) + 0.3 * min (real 5 / 5) 1.0 \<and>
   0 \<le> final_score (9/10) 5 \<and> final_score (9/10) 5 \<le> 1"
  using final_score_blend [of "9/10" 5] by simp

subsection \<open>The regenerate loop\<close>

lemma sorted_reverse_length [simp]: "length (sorted_reverse k xs) = length xs"
  by (simp add: sorted_reverse_def)

lemma sorted_reverse_set [simp]: "set (sorted_reverse k xs) = set xs"
  by (simp add: sorted_reverse_def)

lemma stub_generate:
  "trends s = [stub_trend] \<Longrightarrow> content_tones s = [a, b] \<Longrightarrow>
   generate_content_node stub_env (calls, s) =
     (Suc (Suc calls),
      s\<lparr>current_step := ''generating_content'',
        generated_content := [new_content stub_data stub_trend a, new_content stub_data stub_trend b]\<rparr>)"
  by (simp add: generate_content_node_def stub_env_def)

lemma stub_not_approved:
  "approved (review_one (new_content stub_data stub_trend a)) = Some False"
  unfolding stub_data_def review_one_agent_candidate
  by (simp add: compositeScore_def dict_get_def stub_trend_def)

lemma stub_review_next:
  "generated_content s = [new_content stub_data stub_trend a, new_content stub_data stub_trend b] \<Longrightarrow>
   next_node review_content (review_content_node s) = generate_content"
proof -
  assume g: "generated_content s = [new_content stub_data stub_trend a, new_content stub_data stub_trend b]"
  let ?cs = "generated_content (review_content_node s)"
  have len: "length ?cs = 2" using g by (simp add: review_content_node_def)
  have st: "set ?cs = {review_one (new_content stub_data stub_trend a), review_one (new_content stub_data stub_trend b)}"
    using g by (simp add: review_content_node_def)
  have "\<forall>c \<in> set ?cs. dict_get (approved c) False = False"
    unfolding st using stub_not_approved by (simp add: dict_get_def)
  then have "filter (\<lambda>c. dict_get (approved c) False) ?cs = []"
    by (simp add: filter_empty_conv)
  moreover have "?cs \<noteq> []" using len by auto
  ultimately show ?thesis using len by (simp add: should_publish_content_def)
qed

lemma stub_loop:
  "trends s = [stub_trend] \<Longrightarrow> content_tones s = [a, b] \<Longrightarrow>
   run_graph stub_env n generate_content (calls, s) = Inl GraphRecursionError"
proof (induction n arbitrary: calls s rule: less_induct)
  case (less n)
  show ?case
  proof (cases n)
    case 0
    then show ?thesis by simp
  next
    case (Suc m)
    let ?s1 = "s\<lparr>current_step := ''generating_content'',
        generated_content := [new_content stub_data stub_trend a, new_content stub_data stub_trend b]\<rparr>"
    have step1: "run_graph stub_env n generate_content (calls, s) =
        run_graph stub_env m review_content (Suc (Suc calls), ?s1)"
      using Suc stub_generate [OF less.prems, of calls] by simp
    show ?thesis
    proof (cases m)
      case 0
      then show ?thesis using step1 by simp
    next
      case (Suc k)
      have nx: "next_node review_content (review_content_node ?s1) = generate_content"
        by (rule stub_review_next) simp
      have step2: "run_graph stub_env m review_content (Suc (Suc calls), ?s1) =
          run_graph stub_env k generate_content (Suc (Suc calls), review_content_node ?s1)"
        using Suc nx by simp
      have "k < n" using Suc \<open>n = Suc m\<close> by simp
      moreover have "trends (review_content_node ?s1) = [stub_trend]"
        using less.prems by (simp add: review_content_node_def)
      moreover have "content_tones (review_content_node ?s1) = [a, b]"
        using less.prems by (simp add: review_content_node_def)
      ultimately show ?thesis using less.IH step1 step2 by simp
    qed
  qed
qed

lemma stub_run:
  "run_graph stub_env n analyze_trends (0, initial_state stub_env) = Inl GraphRecursionError"
proof (cases n)
  case 0 then show ?thesis by simp
next
  case (Suc m)
  note n = this
  show ?thesis
  proof (cases m)
    case 0 then show ?thesis using n by simp
  next
    case (Suc k)
    let ?s2 = "filter_trends_node (analyze_trends_node stub_env (initial_state stub_env))"
    have t: "trends ?s2 = [stub_trend]"
      by (simp add: filter_trends_node_def analyze_trends_node_def initial_state_def stub_env_def
          py_slice_to_def sorted_reverse_def Let_def)
    have c: "content_tones ?s2 = [''professional'', ''casual'']"
      by (simp add: filter_trends_node_def analyze_trends_node_def initial_state_def stub_env_def
          Let_def)
    have "run_graph stub_env n analyze_trends (0, initial_state stub_env) =
        run_graph stub_env k generate_content (0, ?s2)"
      using n Suc by simp
    then show ?thesis using stub_loop [OF t c] by simp
  qed
qed

text \<open>
  Claim C1, evaluated on the run with one trend and two tones whose content is never
  approved. Every pass produces two candidates, the list is emptied at the start of the
  next pass, so the count never reaches 5: whatever the step limit, the run does not reach
  \<open>END\<close>, and the entry point reports a failed run instead of a skipped one.
\<close>

theorem regenerate_loop_never_skips:
  "run_graph stub_env n analyze_trends (0, initial_state stub_env) = Inl GraphRecursionError \<and>
   map_of (run_daily_automation stub_env) ''success'' = Some (VBool False)"
  using stub_run by (simp add: run_daily_automation_def ainvoke_def)

subsection \<open>The generation stage\<close>

lemma generate_tones_appends:
  "\<exists>cs. (\<forall>s. generate_tones env tr tones (n, s) =
             (n + length tones, s\<lparr>generated_content := generated_content s @ cs\<rparr>)) \<and>
        (\<forall>c \<in> set cs. \<exists>k d tn. n \<le> k \<and> tn \<in> set tones \<and>
             content_agent_execute env k (trend_id tr) tn = Success d \<and>
             c = new_content d tr tn)"
proof (induction tones arbitrary: n)
  case Nil
  show ?case by (rule exI [of _ "[]"]) simp
next
  case (Cons tn tones)
  obtain cs where
    run: "\<And>s. generate_tones env tr tones (Suc n, s) =
             (Suc n + length tones, s\<lparr>generated_content := generated_content s @ cs\<rparr>)" and
    mem: "\<forall>c \<in> set cs. \<exists>k d tn'. Suc n \<le> k \<and> tn' \<in> set tones \<and>
             content_agent_execute env k (trend_id tr) tn' = Success d \<and>
             c = new_content d tr tn'"
    using Cons.IH [of "Suc n"] by blast
  show ?case
  proof (cases "content_agent_execute env n (trend_id tr) tn")
    case (Success d)
    have "\<forall>s. generate_tones env tr (tn # tones) (n, s) =
             (n + length (tn # tones),
              s\<lparr>generated_content := generated_content s @ (new_content d tr tn # cs)\<rparr>)"
      using Success run by simp
    moreover have "\<forall>c \<in> set (new_content d tr tn # cs). \<exists>k d' tn'. n \<le> k \<and>
             tn' \<in> set (tn # tones) \<and>
             content_agent_execute env k (trend_id tr) tn' = Success d' \<and>
             c = new_content d' tr tn'"
    proof
      fix c assume "c \<in> set (new_content d tr tn # cs)"
      then consider "c = new_content d tr tn" | "c \<in> set cs" by auto
      then show "\<exists>k d' tn'. n \<le> k \<and> tn' \<in> set (tn # tones) \<and>
             content_agent_execute env k (trend_id tr) tn' = Success d' \<and>
             c = new_content d' tr tn'"
      proof cases
        case 1
        then show ?thesis using Success by (intro exI [of _ n] exI [of _ d] exI [of _ tn]) simp
      next
        case 2
        then obtain k d' tn' where "Suc n \<le> k" "tn' \<in> set tones"
          "content_agent_execute env k (trend_id tr) tn' = Success d'" "c = new_content d' tr tn'"
          using mem by blast
        then show ?thesis by (intro exI [of _ k] exI [of _ d'] exI [of _ tn']) simp
      qed
    qed
    ultimately show ?thesis by blast
  next
    case (Failure err)
    have "\<forall>s. generate_tones env tr (tn # tones) (n, s) =
             (n + length (tn # tones), s\<lparr>generated_content := generated_content s @ cs\<rparr>)"
      using Failure run by simp
    moreover have "\<forall>c \<in> set cs. \<exists>k d' tn'. n \<le> k \<and> tn' \<in> set (tn # tones) \<and>
             content_agent_execute env k (trend_id tr) tn' = Success d' \<and>
             c = new_content d' tr tn'"
      using mem by (metis Suc_leD list.set_intros(2))
    ultimately show ?thesis by blast
  next
    case (Raises e)
    have "\<forall>s. generate_tones env tr (tn # tones) (n, s) =
             (n + length (tn # tones), s\<lparr>generated_content := generated_content s @ cs\<rparr>)"
      using Raises run by simp
    moreover have "\<forall>c \<in> set cs. \<exists>k d' tn'. n \<le> k \<and> tn' \<in> set (tn # tones) \<and>
             content_agent_execute env k (trend_id tr) tn' = Success d' \<and>
             c = new_content d' tr tn'"
      using mem by (metis Suc_leD list.set_intros(2))
    ultimately show ?thesis by blast
  qed
qed

lemma generate_trends_appends:
  "\<exists>cs m. (\<forall>s. generate_trends env ts tones (n, s) =
             (m, s\<lparr>generated_content := generated_content s @ cs\<rparr>)) \<and> n \<le> m \<and>
        (\<forall>c \<in> set cs. \<exists>k d tr tn. n \<le> k \<and> tr \<in> set ts \<and> tn \<in> set tones \<and>
             content_agent_execute env k (trend_id tr) tn = Success d \<and>
             c = new_content d tr tn)"
proof (induction ts arbitrary: n)
  case Nil
  show ?case by (intro exI [of _ "[]"] exI [of _ n]) simp
next
  case (Cons tr ts)
  obtain cs1 where
    run1: "\<And>s. generate_tones env tr tones (n, s) =
             (n + length tones, s\<lparr>generated_content := generated_content s @ cs1\<rparr>)" and
    mem1: "\<forall>c \<in> set cs1. \<exists>k d tn. n \<le> k \<and> tn \<in> set tones \<and>
             content_agent_execute env k (trend_id tr) tn = Success d \<and>
             c = new_content d tr tn"
    using generate_tones_appends [of env tr tones n] by blast
  obtain cs2 m where
    run2: "\<And>s. generate_trends env ts tones (n + length tones, s) =
             (m, s\<lparr>generated_content := generated_content s @ cs2\<rparr>)" and
    le2: "n + length tones \<le> m" and
    mem2: "\<forall>c \<in> set cs2. \<exists>k d tr' tn. n + length tones \<le> k \<and> tr' \<in> set ts \<and>
             tn \<in> set tones \<and>
             content_agent_execute env k (trend_id tr') tn = Success d \<and>
             c = new_content d tr' tn"
    using Cons.IH [of "n + length tones"] by blast
  have "\<forall>s. generate_trends env (tr # ts) tones (n, s) =
             (m, s\<lparr>generated_content := generated_content s @ (cs1 @ cs2)\<rparr>)"
    using run1 run2 by simp
  moreover have "n \<le> m" using le2 by simp
  moreover have "\<forall>c \<in> set (cs1 @ cs2). \<exists>k d tr' tn. n \<le> k \<and> tr' \<in> set (tr # ts) \<and>
             tn \<in> set tones \<and>
             content_agent_execute env k (trend_id tr') tn = Success d \<and>
             c = new_content d tr' tn"
  proof
    fix c assume "c \<in> set (cs1 @ cs2)"
    then consider "c \<in> set cs1" | "c \<in> set cs2" by auto
    then show "\<exists>k d tr' tn. n \<le> k \<and> tr' \<in> set (tr # ts) \<and>
             tn \<in> set tones \<and>
             content_agent_execute env k (trend_id tr') tn = Success d \<and>
             c = new_content d tr' tn"
    proof cases
      case 1
      then obtain k d tn where "n \<le> k" "tn \<in> set tones"
        "content_agent_execute env k (trend_id tr) tn = Success d" "c = new_content d tr tn"
        using mem1 by blast
      then show ?thesis by (intro exI [of _ k] exI [of _ d] exI [of _ tr] exI [of _ tn]) simp
    next
      case 2
      then obtain k d tr' tn where "n + length tones \<le> k" "tr' \<in> set ts" "tn \<in> set tones"
        "content_agent_execute env k (trend_id tr') tn = Success d" "c = new_content d tr' tn"
        using mem2 by blast
      then show ?thesis by (intro exI [of _ k] exI [of _ d] exI [of _ tr'] exI [of _ tn]) simp
    qed
  qed
  ultimately show ?case by blast
qed

text \<open>
  Claim C10. The generation stage empties \<open>generated_content\<close> before it appends: what
  the list held before has no influence on the result, every candidate of the result was
  returned by a call of the content agent made in this pass, for a trend and a tone of
  the state, and the list of trends is unchanged.
\<close>

theorem generate_content_resets:
  "generated_content (snd (generate_content_node env (calls, state))) =
     generated_content (snd (generate_content_node env
        (calls, state\<lparr>generated_content := []\<rparr>))) \<and>
   trends (snd (generate_content_node env (calls, state))) = trends state \<and>
   (\<forall>c \<in> set (generated_content (snd (generate_content_node env (calls, state)))).
      \<exists>k d tr tn. calls \<le> k \<and> tr \<in> set (trends state) \<and> tn \<in> set (content_tones state) \<and>
        content_agent_execute env k (trend_id tr) tn = Success d \<and>
        c = new_content d tr tn)"
proof -
  obtain cs m where
    run: "\<And>s. generate_trends env (trends state) (content_tones state) (calls, s) =
             (m, s\<lparr>generated_content := generated_content s @ cs\<rparr>)" and
    mem: "\<forall>c \<in> set cs. \<exists>k d tr tn. calls \<le> k \<and> tr \<in> set (trends state) \<and>
             tn \<in> set (content_tones state) \<and>
             content_agent_execute env k (trend_id tr) tn = Success d \<and>
             c = new_content d tr tn"
    using generate_trends_appends [of env "trends state" "content_tones state" calls] by blast
  show ?thesis using mem by (simp add: generate_content_node_def run)
qed

theorem generate_content_resets_witness:
  "generated_content (snd (generate_content_node stub_env
      (0, empty_state\<lparr>trends := [stub_trend],
            generated_content := [good_candidate, good_candidate, good_candidate]\<rparr>))) =
     [new_content stub_data stub_trend ''professional'',
      new_content stub_data stub_trend ''casual''] \<and>
   trends (snd (generate_content_node stub_env
      (0, empty_state\<lparr>trends := [stub_trend],
            generated_content := [good_candidate, good_candidate, good_candidate]\<rparr>))) =
     [stub_trend]"
  using generate_content_resets [of stub_env 0
      "empty_state\<lparr>trends := [stub_trend],
            generated_content := [good_candidate, good_candidate, good_candidate]\<rparr>"]
  by (simp add: generate_content_node_def stub_env_def empty_state_def)

subsection \<open>The publish decision\<close>

lemma approved_count_pos:
  "(length (filter (\<lambda>c. dict_get (approved c) False) cs) \<ge> 1) =
     (\<exists>c \<in> set cs. approved c = Some True)"
  by (induction cs) (auto simp: dict_get_def split: option.splits)

lemma analyze_keeps_published:
  "published_posts (analyze_trends_node env state) = published_posts state"
  by (simp add: analyze_trends_node_def Let_def split: outcome.split)

lemma filter_keeps_published:
  "published_posts (filter_trends_node state) = published_posts state"
  by (simp add: filter_trends_node_def Let_def)

lemma generate_keeps_published:
  "published_posts (snd (generate_content_node env cs)) = published_posts (snd cs)"
proof -
  let ?s = "(snd cs)\<lparr>current_step := ''generating_content'', generated_content := []\<rparr>"
  obtain new m where
    "\<And>s. generate_trends env (trends ?s) (content_tones ?s) (fst cs, s) =
             (m, s\<lparr>generated_content := generated_content s @ new\<rparr>)"
    using generate_trends_appends [of env "trends ?s" "content_tones ?s" "fst cs"] by blast
  then show ?thesis by (simp add: generate_content_node_def Let_def)
qed

lemma review_keeps_published:
  "published_posts (review_content_node state) = published_posts state"
  by (simp add: review_content_node_def)

lemma review_sets_step:
  "current_step (review_content_node state) = ''reviewing_content''"
  by (simp add: review_content_node_def)

lemma scheduled_run_ends_monitoring:
  "run_graph env limit schedule_posts cs = Inr (calls, final) \<Longrightarrow>
   current_step final = ''monitoring_engagement''"
proof (cases limit)
  case 0
  assume "run_graph env limit schedule_posts cs = Inr (calls, final)"
  then show ?thesis using 0 by simp
next
  case (Suc k)
  assume r: "run_graph env limit schedule_posts cs = Inr (calls, final)"
  show ?thesis
  proof (cases k)
    case 0
    then show ?thesis using r Suc by simp
  next
    case (Suc j)
    then show ?thesis using r \<open>limit = Suc k\<close>
      by (auto simp: monitor_engagement_node_def Let_def)
  qed
qed

lemma skipped_run_schedules_nothing:
  "n \<in> {analyze_trends, filter_trends, generate_content, review_content} \<Longrightarrow>
   published_posts (snd cs) = [] \<Longrightarrow>
   run_graph env limit n cs = Inr (calls, final) \<Longrightarrow>
   current_step final = ''reviewing_content'' \<Longrightarrow>
   published_posts final = []"
proof (induction limit arbitrary: n cs)
  case 0
  then show ?case by auto
next
  case (Suc limit)
  let ?cs = "exec_node env n cs"
  have run: "run_graph env limit (next_node n (snd ?cs)) ?cs = Inr (calls, final)"
    using Suc.prems(1,3) by (auto simp: Let_def)
  have pub: "published_posts (snd ?cs) = []"
    using Suc.prems(1,2)
    by (auto simp: analyze_keeps_published filter_keeps_published generate_keeps_published
        review_keeps_published)
  consider "n = analyze_trends" | "n = filter_trends" | "n = generate_content"
    | "n = review_content" using Suc.prems(1) by auto
  then show ?case
  proof cases
    case 1
    then show ?thesis using Suc.IH [of filter_trends ?cs] run pub Suc.prems(4) by simp
  next
    case 2
    then show ?thesis using Suc.IH [of generate_content ?cs] run pub Suc.prems(4) by simp
  next
    case 3
    then show ?thesis using Suc.IH [of review_content ?cs] run pub Suc.prems(4) by simp
  next
    case 4
    consider "next_node n (snd ?cs) = schedule_posts" | "next_node n (snd ?cs) = generate_content"
      | "next_node n (snd ?cs) = END"
      using 4 by (cases "should_publish_content (snd ?cs)") auto
    then show ?thesis
    proof cases
      case 1
      then have "current_step final = ''monitoring_engagement''"
        using run scheduled_run_ends_monitoring by metis
      then show ?thesis using Suc.prems(4) by simp
    next
      case 2
      then show ?thesis using Suc.IH [of generate_content ?cs] run pub Suc.prems(4) by simp
    next
      case 3
      then have "final = snd ?cs" using run by simp
      then show ?thesis using pub by simp
    qed
  qed
qed

lemma no_trend_run:
  "run_graph no_trend_env recursion_limit analyze_trends (0, initial_state no_trend_env) =
     Inr (0, (initial_state no_trend_env)
        \<lparr>current_step := ''reviewing_content'',
         errors := [''Trend analysis failed: no articles'']\<rparr>)"
  by (simp add: recursion_limit_def eval_nat_numeral no_trend_env_def stub_env_def
      initial_state_def analyze_trends_node_def filter_trends_node_def
      generate_content_node_def review_content_node_def should_publish_content_def
      sorted_reverse_def Let_def)

text \<open>
  Claim C2, as amended. At the decision after \<^verbatim>\<open>review_content\<close>: when at least one
  candidate is approved, the run goes to \<open>schedule_posts\<close>; otherwise, when the candidate
  list is empty, it goes to \<open>END\<close>; otherwise, when the number of candidates generated so
  far is below 5, it goes back to \<open>generate_content\<close>; otherwise, when the list itself
  holds at least 5 candidates, it goes to \<open>END\<close>. The candidates of the list are among
  those generated so far, so that number is at least the length of the list. A run from
  the initial state that ends at this decision, the review being its last stage, has no
  scheduled post.
\<close>

theorem review_content_transition:
  "(length (generated_content state) \<le> generated_so_far \<longrightarrow>
      ((\<exists>c \<in> set (generated_content state). approved c = Some True) \<longrightarrow>
         next_node review_content state = schedule_posts) \<and>
      (\<not> (\<exists>c \<in> set (generated_content state). approved c = Some True) \<and>
       generated_content state = [] \<longrightarrow>
         next_node review_content state = END) \<and>
      (\<not> (\<exists>c \<in> set (generated_content state). approved c = Some True) \<and>
       generated_content state \<noteq> [] \<and> generated_so_far < 5 \<longrightarrow>
         next_node review_content state = generate_content) \<and>
      (\<not> (\<exists>c \<in> set (generated_content state). approved c = Some True) \<and>
       5 \<le> length (generated_content state) \<longrightarrow>
         next_node review_content state = END)) \<and>
   (run_graph env limit analyze_trends (0, initial_state env) = Inr (calls, final) \<and>
    current_step final = ''reviewing_content'' \<longrightarrow>
      published_posts final = [])"
proof -
  have "run_graph env limit analyze_trends (0, initial_state env) = Inr (calls, final) \<and>
    current_step final = ''reviewing_content'' \<longrightarrow> published_posts final = []"
    using skipped_run_schedules_nothing [of analyze_trends "(0, initial_state env)" env limit calls final]
    by (simp add: initial_state_def)
  then show ?thesis
    using approved_count_pos [of "generated_content state"]
    by (auto simp: should_publish_content_def Let_def)
qed

theorem review_content_transition_witness:
  "next_node review_content rejected_state = generate_content \<and>
   run_graph no_trend_env recursion_limit analyze_trends (0, initial_state no_trend_env) =
     Inr (0, (initial_state no_trend_env)
        \<lparr>current_step := ''reviewing_content'',
         errors := [''Trend analysis failed: no articles'']\<rparr>) \<and>
   published_posts ((initial_state no_trend_env)
        \<lparr>current_step := ''reviewing_content'',
         errors := [''Trend analysis failed: no articles'']\<rparr>) = []"
  using review_content_transition [of rejected_state 2 no_trend_env recursion_limit 0
      "(initial_state no_trend_env)
        \<lparr>current_step := ''reviewing_content'',
         errors := [''Trend analysis failed: no articles'']\<rparr>"]
    no_trend_run stub_not_approved
  by (simp add: rejected_state_def empty_state_def)

text \<open>
  The claim as written sends a state with zero candidates (fewer than 5, none approved)
  back to \<open>generate_content\<close>; the code ends the run.
\<close>

theorem review_content_empty_counterexample:
  "generated_content empty_state = [] \<and>
   length (generated_content empty_state) < 5 \<and>
   next_node review_content empty_state = END \<and>
   next_node review_content empty_state \<noteq> generate_content"
  by (simp add: empty_state_def should_publish_content_def)

subsection \<open>The entry point\<close>





subsection \<open>The publish times\<close>

lemma div_60_1440: "(60 * q) div 86400 = (q::int) div 1440"
proof -
  have "(60 * q) div (60 * 1440) = q div 1440" by (rule div_mult_mult1) simp
  then show ?thesis by simp
qed

lemma mod_60_1440: "(60 * q) mod 86400 = 60 * ((q::int) mod 1440)"
proof -
  have "(60 * q) mod (60 * 1440) = 60 * (q mod 1440)" by (rule mod_mult_mult1)
  then show ?thesis by simp
qed

lemma div_60_60: "(60 * x) div 3600 = (x::int) div 60"
proof -
  have "(60 * x) div (60 * 60) = x div 60" by (rule div_mult_mult1) simp
  then show ?thesis by simp
qed

lemma mod_60_60: "(60 * x) mod 3600 = 60 * ((x::int) mod 60)"
proof -
  have "(60 * x) mod (60 * 60) = 60 * (x mod 60)" by (rule mod_mult_mult1)
  then show ?thesis by simp
qed

lemma timedelta_minutes_ok:
  "0 \<le> m \<Longrightarrow> m div 1440 \<le> 999999999 \<Longrightarrow>
   timedelta_minutes m = Inr \<lparr>days = m div 1440, seconds = 60 * (m mod 1440), microseconds = 0\<rparr>"
proof -
  assume m: "0 \<le> m" "m div 1440 \<le> 999999999"
  have d: "(m * 60) div 86400 = m div 1440" using div_60_1440 [of m] by (simp add: mult.commute)
  have s: "(m * 60) mod 86400 = 60 * (m mod 1440)" using mod_60_1440 [of m] by (simp add: mult.commute)
  have "0 \<le> m div 1440" using m by (simp add: pos_imp_zdiv_nonneg_iff)
  then show ?thesis using m d s by (simp add: timedelta_minutes_def Let_def)
qed

lemma datetime_add_minutes:
  assumes "second dt = 0" "microsecond dt = 0" "hour dt < 24" "minute dt < 60"
    and "0 \<le> m" "m < 1440"
    and "0 < ordinal dt + d" "ordinal dt + d + 1 \<le> MAXORDINAL"
  shows "\<exists>t. datetime_add dt \<lparr>days = d, seconds = 60 * m, microseconds = 0\<rparr> = Inr t \<and>
      datetime_minutes t = datetime_minutes dt + d * 1440 + m \<and>
      second t = 0 \<and> microsecond t = 0 \<and> hour t < 24 \<and> minute t < 60"
proof -
  define q where "q = int (hour dt) * 60 + int (minute dt) + m"
  have q: "0 \<le> q" "q < 2880" using assms by (auto simp: q_def)
  define x where "x = q mod 1440"
  have x: "0 \<le> x" "x < 1440" by (simp_all add: x_def)
  have s: "int (hour dt) * 3600 + int (minute dt) * 60 + 60 * m = 60 * q"
    by (simp add: q_def algebra_simps)
  have e4: "(60 * x) mod 3600 div 60 = x mod 60" by (simp add: mod_60_60)
  have qd0: "0 \<le> q div 1440" using q by (simp add: pos_imp_zdiv_nonneg_iff)
  have qd1: "q div 1440 \<le> 1" using q by arith
  have rng: "0 < ordinal dt + d + q div 1440 \<and> ordinal dt + d + q div 1440 \<le> MAXORDINAL"
    using qd0 qd1 assms by auto
  let ?t = "\<lparr>ordinal = ordinal dt + d + q div 1440, hour = nat (x div 60),
      minute = nat (x mod 60), second = 0, microsecond = 0\<rparr>"
  have "datetime_add dt \<lparr>days = d, seconds = 60 * m, microseconds = 0\<rparr> = Inr ?t"
    using assms(1,2) rng
    by (simp add: datetime_add_def Let_def s div_60_1440 mod_60_1440 div_60_60 e4 x_def [symmetric])
  moreover have "datetime_minutes ?t = datetime_minutes dt + d * 1440 + m"
  proof -
    have a: "0 \<le> x div 60" "0 \<le> x mod 60" using x by (simp_all add: pos_imp_zdiv_nonneg_iff)
    have b: "x div 60 * 60 + x mod 60 = x" by simp
    have c: "q div 1440 * 1440 + x = q" by (simp add: x_def)
    show ?thesis using a b c by (simp add: datetime_minutes_def q_def algebra_simps)
  qed
  moreover have "hour ?t < 24" "minute ?t < 60"
  proof -
    have "x div 60 < 24" using x by arith
    moreover have "x mod 60 < 60" by simp
    ultimately show "hour ?t < 24" "minute ?t < 60" using x by auto
  qed
  ultimately show ?thesis by (intro exI [of _ ?t]) simp
qed

lemma optimal_hour_cases:
  "optimal_hours ! (i mod length optimal_hours) = 8 \<or>
   optimal_hours ! (i mod length optimal_hours) = 12 \<or>
   optimal_hours ! (i mod length optimal_hours) = 17"
proof -
  have "i mod 3 = 0 \<or> i mod 3 = 1 \<or> i mod 3 = 2" by arith
  then show ?thesis by (auto simp: optimal_hours_def)
qed

lemma slot_next_day:
  assumes "h < 24" "0 \<le> ordinal b" "ordinal b + 1 \<le> MAXORDINAL"
  shows "datetime_add (b\<lparr>hour := h, minute := 0, second := 0, microsecond := 0\<rparr>)
           \<lparr>days = 1, seconds = 0, microseconds = 0\<rparr> =
         Inr \<lparr>ordinal = ordinal b + 1, hour = h, minute = 0, second = 0, microsecond = 0\<rparr>"
proof -
  have a: "int h * 3600 div 86400 = 0" using assms(1) by simp
  have b: "int h * 3600 mod 86400 = int h * 3600" using assms(1) by simp
  show ?thesis using assms by (simp add: datetime_add_def Let_def a b)
qed

lemma schedule_time_ok:
  assumes "0 < ordinal b" "ordinal b + 2 + (30 * int i) div 1440 \<le> MAXORDINAL"
  shows "\<exists>t. schedule_time b i = Inr t \<and>
      datetime_minutes t =
        (ordinal b + (if hour b \<ge> optimal_hours ! (i mod length optimal_hours) then 1 else 0)) * 1440
        + int (optimal_hours ! (i mod length optimal_hours)) * 60 + 30 * int i \<and>
      second t = 0 \<and> microsecond t = 0 \<and> hour t < 24 \<and> minute t < 60"
proof -
  define h where "h = optimal_hours ! (i mod length optimal_hours)"
  define roll :: int where "roll = (if hour b \<ge> h then 1 else 0)"
  have h: "h < 24" using optimal_hour_cases [of i] by (auto simp: h_def)
  define m where "m = 30 * int i"
  have m0: "0 \<le> m" by (simp add: m_def)
  have d0: "0 \<le> m div 1440" using m0 by (simp add: pos_imp_zdiv_nonneg_iff)
  have mx: "MAXORDINAL = 3652059" by (simp add: MAXORDINAL_def)
  have bound: "ordinal b + 2 + m div 1440 \<le> MAXORDINAL" using assms(2) by (simp only: m_def)
  let ?slot = "\<lparr>ordinal = ordinal b + roll, hour = h, minute = 0, second = 0, microsecond = 0\<rparr>"
  have slot: "(if hour b \<ge> h
                  then datetime_add (b\<lparr>hour := h, minute := 0, second := 0, microsecond := 0\<rparr>)
                         \<lparr>days = 1, seconds = 0, microseconds = 0\<rparr>
                  else Inr (b\<lparr>hour := h, minute := 0, second := 0, microsecond := 0\<rparr>)) = Inr ?slot"
  proof (cases "hour b \<ge> h")
    case True
    have "ordinal b + 1 \<le> MAXORDINAL" using bound d0 by simp
    then show ?thesis using True slot_next_day [OF h, of b] assms(1) by (simp add: roll_def)
  next
    case False
    then show ?thesis by (simp add: roll_def)
  qed
  have td: "timedelta_minutes (int i * 30) =
      Inr \<lparr>days = m div 1440, seconds = 60 * (m mod 1440), microseconds = 0\<rparr>"
  proof -
    have "m div 1440 \<le> 999999999" using bound assms(1) mx by simp
    then have "timedelta_minutes m =
        Inr \<lparr>days = m div 1440, seconds = 60 * (m mod 1440), microseconds = 0\<rparr>"
      using timedelta_minutes_ok [OF m0] by simp
    moreover have "int i * 30 = m" by (simp add: m_def)
    ultimately show ?thesis by (simp only:)
  qed
  have st: "schedule_time b i =
      datetime_add ?slot \<lparr>days = m div 1440, seconds = 60 * (m mod 1440), microseconds = 0\<rparr>"
    unfolding schedule_time_def Let_def h_def [symmetric] slot td by simp
  have r: "0 \<le> roll" "roll \<le> 1" by (simp_all add: roll_def)
  have pre: "0 \<le> m mod 1440" "m mod 1440 < 1440" by simp_all
  have rng: "0 < ordinal ?slot + m div 1440" "ordinal ?slot + m div 1440 + 1 \<le> MAXORDINAL"
    using r d0 assms(1) bound by simp_all
  obtain t where t: "datetime_add ?slot \<lparr>days = m div 1440,
         seconds = 60 * (m mod 1440), microseconds = 0\<rparr> = Inr t"
      "datetime_minutes t = datetime_minutes ?slot + (m div 1440) * 1440 + m mod 1440"
      "second t = 0" "microsecond t = 0" "hour t < 24" "minute t < 60"
    using datetime_add_minutes [of ?slot "m mod 1440" "m div 1440", OF _ _ _ _ pre rng] h
    by auto
  have "(m div 1440) * 1440 + m mod 1440 = m" by simp
  then have "datetime_minutes t = (ordinal b + roll) * 1440 + int h * 60 + m"
    using t(2) by (simp add: datetime_minutes_def)
  then have "datetime_minutes t = (ordinal b + roll) * 1440 + int h * 60 + 30 * int i"
    by (simp only: m_def)
  then show ?thesis using st t unfolding h_def roll_def by auto
qed

lemma post_times_loop_map:
  "\<forall>i \<in> set js. \<exists>t. schedule_time b i = Inr t \<Longrightarrow>
   post_times_loop b js acc = Inr (acc @ map (\<lambda>i. projr (schedule_time b i)) js)"
proof (induction js arbitrary: acc)
  case Nil
  then show ?case by simp
next
  case (Cons j js)
  then obtain t where "schedule_time b j = Inr t" by auto
  then show ?case using Cons by simp
qed

lemma below_nine: "i < 9 \<Longrightarrow> i = 0 \<or> i = 1 \<or> i = 2 \<or> i = 3 \<or> i = 4 \<or> i = 5 \<or> i = 6 \<or> i = 7 \<or> i = (8::nat)"
  by arith

lemma slot_minutes_distinct:
  assumes "i < 9" "j < 9" "i \<noteq> j"
  shows "(d + (if H \<ge> optimal_hours ! (i mod 3) then 1 else 0)) * 1440
           + int (optimal_hours ! (i mod 3)) * 60 + 30 * int i
       \<noteq> (d + (if H \<ge> optimal_hours ! (j mod 3) then 1 else 0)) * 1440
           + int (optimal_hours ! (j mod 3)) * 60 + 30 * int j"
  using below_nine [OF assms(1)] below_nine [OF assms(2)] assms(3)
  by (auto simp: optimal_hours_def)

lemma schedule_time_below:
  assumes "0 < ordinal now" "ordinal now + 2 + (30 * n) div 1440 \<le> MAXORDINAL" "i < nat n"
  shows "\<exists>t. schedule_time now i = Inr t \<and>
      datetime_minutes t =
        (ordinal now + (if hour now \<ge> optimal_hours ! (i mod 3) then 1 else 0)) * 1440
        + int (optimal_hours ! (i mod 3)) * 60 + 30 * int i \<and>
      second t = 0 \<and> microsecond t = 0 \<and> hour t < 24 \<and> minute t < 60"
proof -
  have "30 * int i \<le> 30 * n" using assms(3) by simp
  then have "(30 * int i) div 1440 \<le> (30 * n) div 1440" by (rule zdiv_mono1) simp
  then have "ordinal now + 2 + (30 * int i) div 1440 \<le> MAXORDINAL" using assms(2) by simp
  from schedule_time_ok [OF assms(1) this] show ?thesis by (simp add: optimal_hours_def)
qed

lemma calculate_map:
  assumes "0 < ordinal now" "ordinal now + 2 + (30 * n) div 1440 \<le> MAXORDINAL"
  shows "calculate_optimal_post_times now n =
           Inr (map (\<lambda>i. projr (schedule_time now i)) [0..<nat n])"
proof -
  have "\<forall>i \<in> set [0..<nat n]. \<exists>t. schedule_time now i = Inr t"
  proof
    fix i assume "i \<in> set [0..<nat n]"
    then have "i < nat n" by simp
    from schedule_time_below [OF assms this] show "\<exists>t. schedule_time now i = Inr t" by blast
  qed
  from post_times_loop_map [OF this, of "[]"]
  show ?thesis by (simp add: calculate_optimal_post_times_def)
qed

text \<open>
  Claim C4, as amended. For \<open>n \<ge> 0\<close> posts and a clock whose date leaves room for the
  latest time, the computation returns exactly \<open>n\<close> times. The time at index \<open>i\<close> is the
  hour \<open>[8, 12, 17] ! (i mod 3)\<close>, of the clock's day when the clock's hour is below it and
  of the next day otherwise, plus \<open>30 * i\<close> minutes. For at most 9 posts the times are
  pairwise distinct.
\<close>

theorem post_times_slots:
  assumes "0 \<le> n" "0 < ordinal now" "ordinal now + 2 + (30 * n) div 1440 \<le> MAXORDINAL"
  shows "\<exists>ts. calculate_optimal_post_times now n = Inr ts \<and> length ts = nat n \<and>
     (\<forall>i < nat n.
        datetime_minutes (ts ! i) =
          (ordinal now + (if hour now \<ge> optimal_hours ! (i mod 3) then 1 else 0)) * 1440
          + int (optimal_hours ! (i mod 3)) * 60 + 30 * int i \<and>
        second (ts ! i) = 0 \<and> microsecond (ts ! i) = 0 \<and>
        hour (ts ! i) < 24 \<and> minute (ts ! i) < 60) \<and>
     (n \<le> 9 \<longrightarrow> distinct ts)"
proof -
  let ?ts = "map (\<lambda>i. projr (schedule_time now i)) [0..<nat n]"
  note ok = calculate_map [OF assms(2) assms(3)]
  have nth: "?ts ! i = projr (schedule_time now i)" if "i < nat n" for i
    using that by simp
  have props: "datetime_minutes (?ts ! i) =
          (ordinal now + (if hour now \<ge> optimal_hours ! (i mod 3) then 1 else 0)) * 1440
          + int (optimal_hours ! (i mod 3)) * 60 + 30 * int i \<and>
        second (?ts ! i) = 0 \<and> microsecond (?ts ! i) = 0 \<and>
        hour (?ts ! i) < 24 \<and> minute (?ts ! i) < 60" if lt: "i < nat n" for i
  proof -
    obtain t where "schedule_time now i = Inr t" and
      "datetime_minutes t =
        (ordinal now + (if hour now \<ge> optimal_hours ! (i mod 3) then 1 else 0)) * 1440
        + int (optimal_hours ! (i mod 3)) * 60 + 30 * int i \<and>
      second t = 0 \<and> microsecond t = 0 \<and> hour t < 24 \<and> minute t < 60"
      using schedule_time_below [OF assms(2) assms(3) lt] by blast
    then show ?thesis using nth [OF lt] by simp
  qed
  have dist: "distinct ?ts" if "n \<le> 9"
  proof -
    have "?ts ! i \<noteq> ?ts ! j" if "i < length ?ts" "j < length ?ts" "i \<noteq> j" for i j
    proof
      assume eq: "?ts ! i = ?ts ! j"
      have i: "i < nat n" and j: "j < nat n" using that by simp_all
      have "i < 9" "j < 9" using i j \<open>n \<le> 9\<close> by simp_all
      from slot_minutes_distinct [OF this \<open>i \<noteq> j\<close>, of "ordinal now" "hour now"]
      show False using props [OF i] props [OF j] eq by simp
    qed
    then show ?thesis by (simp only: distinct_conv_nth) blast
  qed
  show ?thesis
    by (rule exI [of _ ?ts]) (use ok props dist in simp)
qed

theorem post_times_slots_witness:
  "\<exists>ts. calculate_optimal_post_times now9 4 = Inr ts \<and> length ts = 4 \<and>
     datetime_minutes (ts ! 3) = 739001 * 1440 + 8 * 60 + 90 \<and> distinct ts"
proof -
  have h: "(0::int) \<le> 4" "0 < ordinal now9" "ordinal now9 + 2 + (30 * 4) div 1440 \<le> MAXORDINAL"
    by (simp_all add: now9_def MAXORDINAL_def)
  from post_times_slots [OF h] obtain ts where
    ts: "calculate_optimal_post_times now9 4 = Inr ts" "length ts = nat 4"
      "\<forall>i < nat 4.
        datetime_minutes (ts ! i) =
          (ordinal now9 + (if hour now9 \<ge> optimal_hours ! (i mod 3) then 1 else 0)) * 1440
          + int (optimal_hours ! (i mod 3)) * 60 + 30 * int i \<and>
        second (ts ! i) = 0 \<and> microsecond (ts ! i) = 0 \<and>
        hour (ts ! i) < 24 \<and> minute (ts ! i) < 60"
      "(4::int) \<le> 9 \<longrightarrow> distinct ts" by blast
  have "datetime_minutes (ts ! 3) = 739001 * 1440 + 8 * 60 + 90"
    using ts(3) [rule_format, of 3] by (simp add: now9_def optimal_hours_def)
  then show ?thesis using ts by auto
qed

lemmas eval_times = calculate_optimal_post_times_def schedule_time_def timedelta_minutes_def
  datetime_add_def optimal_hours_def MAXORDINAL_def Let_def datetime_at_def upt_rec

text \<open>
  The claim as written also promises times that never decrease with the index and that
  are pairwise distinct for every \<open>n\<close>. At 09:00 the first of two times is 08:00 of the
  next day and the second is 12:30 of the same day; at 07:00 the times at indices 1 and 9
  of ten are both 12:30.
\<close>

theorem post_times_order_counterexample:
  "calculate_optimal_post_times now9 2 =
     Inr [datetime_at 739001 8 0, datetime_at 739000 12 30] \<and>
   datetime_lt (datetime_at 739000 12 30) (datetime_at 739001 8 0) \<and>
   calculate_optimal_post_times now7 10 =
     Inr [datetime_at 739000 8 0, datetime_at 739000 12 30, datetime_at 739000 18 0,
          datetime_at 739000 9 30, datetime_at 739000 14 0, datetime_at 739000 19 30,
          datetime_at 739000 11 0, datetime_at 739000 15 30, datetime_at 739000 21 0,
          datetime_at 739000 12 30] \<and>
   \<not> distinct [datetime_at 739000 8 0, datetime_at 739000 12 30, datetime_at 739000 18 0,
          datetime_at 739000 9 30, datetime_at 739000 14 0, datetime_at 739000 19 30,
          datetime_at 739000 11 0, datetime_at 739000 15 30, datetime_at 739000 21 0,
          datetime_at 739000 12 30]"
  by (simp add: eval_times datetime_lt_def now9_def now7_def)

text \<open>
  Claim C3, as amended. With the clock in the hour of 09:00, four posts get 08:00 of the
  next day, 12:30 and 18:00 of the same day, and 09:30 of the next day: the hours 8, 12,
  17, 8 with offsets of 0, 30, 60 and 90 minutes. The four times are pairwise distinct,
  and the second is earlier than the first.
\<close>

theorem post_times_at_nine:
  assumes "hour now = 9" "0 < ordinal now" "ordinal now + 1 \<le> MAXORDINAL"
  shows "calculate_optimal_post_times now 4 =
     Inr [datetime_at (ordinal now + 1) 8 0, datetime_at (ordinal now) 12 30,
          datetime_at (ordinal now) 18 0, datetime_at (ordinal now + 1) 9 30] \<and>
     distinct [datetime_at (ordinal now + 1) 8 0, datetime_at (ordinal now) 12 30,
          datetime_at (ordinal now) 18 0, datetime_at (ordinal now + 1) 9 30] \<and>
     datetime_lt (datetime_at (ordinal now) 12 30) (datetime_at (ordinal now + 1) 8 0)"
  using assms by (simp add: eval_times datetime_lt_def)

theorem post_times_at_nine_witness:
  "calculate_optimal_post_times now9 4 =
     Inr [datetime_at 739001 8 0, datetime_at 739000 12 30,
          datetime_at 739000 18 0, datetime_at 739001 9 30]"
  using post_times_at_nine [of now9] by (simp add: now9_def MAXORDINAL_def)

text \<open>
  The claim as written expects 12:00 and 17:30 of the same day, then 09:00 and 13:30 of
  the next day, in increasing order.
\<close>

theorem post_times_at_nine_counterexample:
  "calculate_optimal_post_times now9 4 =
     Inr [datetime_at 739001 8 0, datetime_at 739000 12 30,
          datetime_at 739000 18 0, datetime_at 739001 9 30] \<and>
   [datetime_at 739001 8 0, datetime_at 739000 12 30,
          datetime_at 739000 18 0, datetime_at 739001 9 30] \<noteq>
   [datetime_at 739000 12 0, datetime_at 739000 17 30,
          datetime_at 739001 9 0, datetime_at 739001 13 30] \<and>
   \<not> datetime_lt (datetime_at 739001 8 0) (datetime_at 739000 12 30)"
  by (simp add: eval_times datetime_lt_def now9_def)

subsection \<open>The ranking of trends\<close>

lemma map_fst_dict_set:
  "map fst (dict_set k v xs) = (if k \<in> fst ` set xs then map fst xs else map fst xs @ [k])"
  by (induction xs) (force split: if_splits)+

lemma map_of_dict_set: "map_of (dict_set k v xs) = (map_of xs)(k \<mapsto> v)"
  by (induction xs) (auto simp: fun_eq_iff)

lemma distinct_dict_set:
  "distinct (map fst xs) \<Longrightarrow> distinct (map fst (dict_set k v xs))"
  by (simp add: map_fst_dict_set)

lemma count_topics_inv:
  "distinct (map fst topic_counts) \<Longrightarrow> keyed lower topic_data \<Longrightarrow>
   count_topics lower topics counter (topic_counts, topic_data) = (topic_counts', topic_data') \<Longrightarrow>
   distinct (map fst topic_counts') \<and> keyed lower topic_data'"
proof (induction topics arbitrary: counter topic_counts topic_data)
  case Nil
  then show ?case by simp
next
  case (Cons info rest)
  show ?case
  proof (cases "counter \<ge> 10")
    case True
    then show ?thesis using Cons.prems by simp
  next
    case False
    define t where "t = lower (topic info)"
    define c1 where "c1 = (if map_of topic_counts t = None then dict_set t 0 topic_counts else topic_counts)"
    define d1 where "d1 = (if map_of topic_counts t = None then dict_set t info topic_data else topic_data)"
    define c2 where "c2 = dict_set t (dict_get (map_of c1 t) 0 + 1) c1"
    have step: "count_topics lower (info # rest) counter (topic_counts, topic_data) =
        count_topics lower rest (counter + 1) (c2, d1)"
      using False by (simp add: Let_def t_def c1_def d1_def c2_def)
    have "distinct (map fst c1)" using Cons.prems(1) by (simp add: c1_def distinct_dict_set)
    then have dc: "distinct (map fst c2)" by (simp add: c2_def distinct_dict_set)
    have kd: "keyed lower d1"
      using Cons.prems(2) by (auto simp: d1_def keyed_def map_of_dict_set t_def)
    from Cons.IH [OF dc kd] Cons.prems(3) step show ?thesis by simp
  qed
qed

lemma score_topics_keys:
  "keyed lower topic_data \<Longrightarrow>
   set (map (\<lambda>r. lower (topic r)) (score_topics llm topic_data topic_counts))
     \<subseteq> set (map fst topic_counts)"
proof (induction topic_counts)
  case Nil
  then show ?case by simp
next
  case (Cons p rest)
  obtain t count where p: "p = (t, count)" by (cases p)
  show ?case
  proof (cases "llm t")
    case RequestRaises
    then show ?thesis using Cons p by auto
  next
    case NotANumber
    then show ?thesis using Cons p
      by (cases "map_of topic_data t") (auto simp: keyed_def Let_def)
  next
    case (Number x)
    then show ?thesis using Cons p
      by (cases "map_of topic_data t") (auto simp: keyed_def Let_def)
  qed
qed

lemma score_topics_distinct:
  "keyed lower topic_data \<Longrightarrow> distinct (map fst topic_counts) \<Longrightarrow>
   distinct (map (\<lambda>r. lower (topic r)) (score_topics llm topic_data topic_counts))"
proof (induction topic_counts)
  case Nil
  then show ?case by simp
next
  case (Cons p rest)
  obtain t count where p: "p = (t, count)" by (cases p)
  have rest: "distinct (map (\<lambda>r. lower (topic r)) (score_topics llm topic_data rest))"
    using Cons by simp
  have fresh: "t \<notin> set (map (\<lambda>r. lower (topic r)) (score_topics llm topic_data rest))"
    using score_topics_keys [OF Cons.prems(1), of llm rest] Cons.prems(2) p by auto
  show ?case
  proof (cases "llm t")
    case RequestRaises
    then show ?thesis using rest p by simp
  next
    case NotANumber
    show ?thesis
    proof (cases "map_of topic_data t")
      case None
      then show ?thesis using rest p NotANumber by simp
    next
      case (Some info)
      then have "lower (topic info) = t" using Cons.prems(1) by (simp add: keyed_def)
      then show ?thesis using rest fresh p NotANumber Some by (simp add: Let_def)
    qed
  next
    case (Number x)
    show ?thesis
    proof (cases "map_of topic_data t")
      case None
      then show ?thesis using rest p Number by simp
    next
      case (Some info)
      then have "lower (topic info) = t" using Cons.prems(1) by (simp add: keyed_def)
      then show ?thesis using rest fresh p Number Some by (simp add: Let_def)
    qed
  qed
qed

lemma sorted_reverse_descending:
  "sorted_wrt (\<lambda>a b. k a \<ge> k b) (sorted_reverse k xs)"
proof -
  have "sorted (map (\<lambda>x. - k x) (sorted_reverse k xs))"
    by (simp add: sorted_reverse_def)
  then show ?thesis by (simp add: sorted_map sorted_wrt_iff_nth_less)
qed

lemma distinct_map_insort_key:
  "distinct (map f (insort_key g x xs)) = (f x \<notin> f ` set xs \<and> distinct (map f xs))"
  by (induction xs) (auto simp: set_insort_key)

lemma sorted_reverse_distinct_map:
  "distinct (map f xs) \<Longrightarrow> distinct (map f (sorted_reverse k xs))"
  unfolding sorted_reverse_def
  by (induction xs) (auto simp: distinct_map_insort_key)

lemma py_slice_to_take: "0 \<le> n \<Longrightarrow> py_slice_to n xs = take (nat n) xs"
  by (simp add: py_slice_to_def)

text \<open>
  Claim C6. The ranking is called with a limit that \<^verbatim>\<open>_validate_input\<close> has admitted,
  from 1 to 50. For every list of topic mentions and every limit \<open>\<ge> 0\<close>, the ranking
  returns at most \<open>limit\<close> trends, in descending order of final score, and no two of them
  have the same case-folded topic.
\<close>

theorem rank_trends_bounded_sorted_distinct:
  assumes "0 \<le> limit"
  shows "int (length (rank_trends lower llm topics limit)) \<le> limit \<and>
     sorted_wrt (\<lambda>a b. relevance_score a \<ge> relevance_score b)
       (rank_trends lower llm topics limit) \<and>
     distinct (map (\<lambda>r. lower (topic r)) (rank_trends lower llm topics limit))"
proof -
  obtain topic_counts topic_data where
    ct: "count_topics lower topics 0 ([], []) = (topic_counts, topic_data)"
    by (cases "count_topics lower topics 0 ([], [])")
  have inv: "distinct (map fst topic_counts) \<and> keyed lower topic_data"
    by (rule count_topics_inv [OF _ _ ct]) (simp_all add: keyed_def)
  let ?ranked = "score_topics llm topic_data topic_counts"
  have rt: "rank_trends lower llm topics limit =
      take (nat limit) (sorted_reverse relevance_score ?ranked)"
    using assms by (simp add: rank_trends_def ct py_slice_to_take)
  have len: "int (length (rank_trends lower llm topics limit)) \<le> limit"
    using assms by (simp add: rt)
  have srt: "sorted_wrt (\<lambda>a b. relevance_score a \<ge> relevance_score b)
       (rank_trends lower llm topics limit)"
    unfolding rt by (rule sorted_wrt_take) (rule sorted_reverse_descending)
  have "distinct (map (\<lambda>r. lower (topic r)) (sorted_reverse relevance_score ?ranked))"
    using inv by (intro sorted_reverse_distinct_map score_topics_distinct) simp_all
  then have dst: "distinct (map (\<lambda>r. lower (topic r)) (rank_trends lower llm topics limit))"
    unfolding rt by (simp add: take_map [symmetric] distinct_take)
  show ?thesis using len srt dst by simp
qed

theorem rank_trends_bounded_sorted_distinct_witness:
  "int (length (rank_trends lower_ascii stub_llm three_mentions 2)) \<le> 2 \<and>
   sorted_wrt (\<lambda>a b. relevance_score a \<ge> relevance_score b)
     (rank_trends lower_ascii stub_llm three_mentions 2) \<and>
   distinct (map (\<lambda>r. lower_ascii (topic r)) (rank_trends lower_ascii stub_llm three_mentions 2))"
  using rank_trends_bounded_sorted_distinct [of 2 lower_ascii stub_llm three_mentions] by simp

end
